theory Spec2Isabelle
  imports Main "HOL-Library.Word" "HOL-Library.Sublist"
begin

section \<open>JavaScript strings\<close>

text \<open>
  A JavaScript string is a sequence of UTF-16 code units. The regular expression of
  \<^verbatim>\<open>extractUrlsFromText\<close> has no \<^verbatim>\<open>u\<close> flag, and \<^verbatim>\<open>includes\<close>,
  \<^verbatim>\<open>startsWith\<close> and \<^verbatim>\<open>trim\<close> work on code units too, so a string is a list of
  16-bit words. \<open>ascii\<close> embeds an ASCII literal of the source.
\<close>

type_synonym jschar = "16 word"
type_synonym jsstring = "jschar list"

definition ascii :: "string \<Rightarrow> jsstring" where
  "ascii s = map of_char s"

text \<open>
  The class \<^verbatim>\<open>\s\<close> of a JavaScript regular expression, which is also what
  \<^verbatim>\<open>String.prototype.trim\<close> strips: WhiteSpace (TAB, VT, FF, SP, NBSP, ZWNBSP and the
  Unicode category Zs) and LineTerminator (LF, CR, LS, PS).
\<close>

definition isWhiteSpace :: "jschar \<Rightarrow> bool" where
  "isWhiteSpace c \<longleftrightarrow>
     c \<in> set [0x0009, 0x000A, 0x000B, 0x000C, 0x000D, 0x0020, 0x00A0, 0x1680,
              0x2000, 0x2001, 0x2002, 0x2003, 0x2004, 0x2005, 0x2006, 0x2007,
              0x2008, 0x2009, 0x200A, 0x2028, 0x2029, 0x202F, 0x205F, 0x3000, 0xFEFF]"

text \<open>\<^verbatim>\<open>s.startsWith(p)\<close>\<close>

definition startsWith :: "jsstring \<Rightarrow> jsstring \<Rightarrow> bool" where
  "startsWith s p \<longleftrightarrow> take (length p) s = p"

text \<open>\<^verbatim>\<open>s.includes(p)\<close>: \<open>p\<close> occurs in \<open>s\<close> at some position (\<open>includes\<close> is a keyword of Isabelle).\<close>

fun includesStr :: "jsstring \<Rightarrow> jsstring \<Rightarrow> bool" where
  "includesStr [] p = (p = [])"
| "includesStr (c # cs) p = (startsWith (c # cs) p \<or> includesStr cs p)"

text \<open>\<^verbatim>\<open>s.trim() === ''\<close>: every code unit of \<open>s\<close> is stripped.\<close>

definition trimIsEmpty :: "jsstring \<Rightarrow> bool" where
  "trimIsEmpty s \<longleftrightarrow> list_all isWhiteSpace s"

section \<open>extractUrlsFromText\<close>

text \<open>
  \<^verbatim>\<open>const urlRegex = /(https?:\/\/[^\s"']+)/g; return text.match(urlRegex) || [];\<close>

  \<open>urlChar\<close> is the class \<^verbatim>\<open>[^\s"']\<close>. \<open>matchScheme\<close> is \<^verbatim>\<open>https?:\/\/\<close> at the
  start of the text: after \<^verbatim>\<open>http\<close> the next code unit is \<^verbatim>\<open>s\<close> or \<^verbatim>\<open>:\<close>, so at
  most one of the two alternatives matches. \<open>matchAt\<close> is one attempt of the whole
  pattern at the start of the text: the greedy \<^verbatim>\<open>+\<close> takes the longest run of
  \<open>urlChar\<close> and needs at least one; nothing follows it in the pattern, so there is
  no backtracking. It returns the match and the text after it.
\<close>

definition urlChar :: "jschar \<Rightarrow> bool" where
  "urlChar c \<longleftrightarrow> \<not> (isWhiteSpace c \<or> c = 0x22 \<or> c = 0x27)"

definition matchScheme :: "jsstring \<Rightarrow> (jsstring \<times> jsstring) option" where
  "matchScheme s =
     (if startsWith s (ascii ''https://'') then Some (ascii ''https://'', drop 8 s)
      else if startsWith s (ascii ''http://'') then Some (ascii ''http://'', drop 7 s)
      else None)"

definition matchAt :: "jsstring \<Rightarrow> (jsstring \<times> jsstring) option" where
  "matchAt s =
     (case matchScheme s of
        None \<Rightarrow> None
      | Some (scheme, rest) \<Rightarrow>
          (if takeWhile urlChar rest = [] then None
           else Some (scheme @ takeWhile urlChar rest, dropWhile urlChar rest)))"

text \<open>
  The global match: the pattern is tried at each position from left to right; after a
  match the search goes on where the match ended (\<^verbatim>\<open>lastIndex\<close>), so matches do not
  overlap. \<^verbatim>\<open>match\<close> returns \<^verbatim>\<open>null\<close> when nothing matches, which \<^verbatim>\<open>|| []\<close> turns
  into the empty array.
\<close>

function extractUrlsFromText :: "jsstring \<Rightarrow> jsstring list" where
  "extractUrlsFromText [] = []"
| "extractUrlsFromText (c # cs) =
     (case matchAt (c # cs) of
        Some (m, rest) \<Rightarrow> m # extractUrlsFromText rest
      | None \<Rightarrow> extractUrlsFromText cs)"
  by pat_completeness auto
termination
proof (relation "measure length")
  show "wf (measure length)" by simp
next
  fix c :: jschar and cs x2 x rest
  assume some: "matchAt (c # cs) = Some x2" and pair: "(x, rest) = x2"
  from some pair obtain scheme r where ms: "matchScheme (c # cs) = Some (scheme, r)"
    and run: "takeWhile urlChar r \<noteq> []" and rest: "rest = dropWhile urlChar r"
    by (auto simp: matchAt_def split: option.splits if_splits)
  from ms have "length r \<le> length (c # cs)"
    by (auto simp: matchScheme_def split: if_splits)
  moreover from run have "length (dropWhile urlChar r) < length r"
    by (cases r) (auto simp: le_imp_less_Suc length_dropWhile_le split: if_splits)
  ultimately show "(rest, c # cs) \<in> measure length" using rest by simp
next
  fix c :: jschar and cs
  show "(cs, c # cs) \<in> measure length" by simp
qed

section \<open>Values and documents\<close>

text \<open>
  The values a field of a document can hold, as far as the program tells them apart
  (\<^verbatim>\<open>typeof value === 'string'\<close>, \<^verbatim>\<open>Array.isArray(value)\<close>, \<^verbatim>\<open>!value\<close>).
  \<open>JNum\<close> is a number other than NaN, of which only being zero matters here;
  \<open>JObj\<close> is any other object (an ObjectId, a date, an embedded document), told
  apart by a number.
\<close>

datatype jsval =
    JUndefined
  | JNull
  | JBool bool
  | JNum int
  | JNaN
  | JStr jsstring
  | JArr "jsval list"
  | JObj nat

text \<open>\<^verbatim>\<open>!value\<close> is \<open>\<not> truthy value\<close>.\<close>

fun truthy :: "jsval \<Rightarrow> bool" where
  "truthy JUndefined = False"
| "truthy JNull = False"
| "truthy (JBool b) = b"
| "truthy (JNum n) = (n \<noteq> 0)"
| "truthy JNaN = False"
| "truthy (JStr s) = (s \<noteq> [])"
| "truthy (JArr items) = True"
| "truthy (JObj n) = True"

text \<open>
  A document is the list of its own properties in the order of \<^verbatim>\<open>Object.keys\<close>.
  \<^verbatim>\<open>doc[key]\<close> is \<^verbatim>\<open>undefined\<close> for a key the document does not have. (A key that
  the document lacks and \<^verbatim>\<open>Object.prototype\<close> has reads as a function or an object:
  truthy, no string and no array, so it yields no URL either.)
\<close>

type_synonym document = "(jsstring \<times> jsval) list"

definition keys :: "document \<Rightarrow> jsstring list" where
  "keys doc = map fst doc"

definition getField :: "document \<Rightarrow> jsstring \<Rightarrow> jsval" where
  "getField doc key = (case map_of doc key of None \<Rightarrow> JUndefined | Some v \<Rightarrow> v)"

section \<open>Detecting the candidate fields (lines 163--177)\<close>

text \<open>
  \<^verbatim>\<open>candidateFields\<close> is a \<^verbatim>\<open>Set\<close>, which iterates in insertion order: a list
  without duplicates, \<open>setAdd\<close> being \<^verbatim>\<open>Set.prototype.add\<close>.
\<close>

definition setAdd :: "jsstring list \<Rightarrow> jsstring \<Rightarrow> jsstring list" where
  "setAdd s key = (if key \<in> set s then s else s @ [key])"

text \<open>\<^verbatim>\<open>value.includes('http://') || value.includes('https://')\<close>\<close>

definition includesLink :: "jsstring \<Rightarrow> bool" where
  "includesLink text \<longleftrightarrow>
     includesStr text (ascii ''http://'') \<or> includesStr text (ascii ''https://'')"

text \<open>\<^verbatim>\<open>typeof item === 'string' && (item.includes(..) || item.includes(..))\<close>\<close>

definition itemIncludesLink :: "jsval \<Rightarrow> bool" where
  "itemIncludesLink item = (case item of JStr s \<Rightarrow> includesLink s | _ \<Rightarrow> False)"

text \<open>The body of \<^verbatim>\<open>Object.keys(doc).forEach(key => ...)\<close>.\<close>

definition sniffKey :: "document \<Rightarrow> jsstring \<Rightarrow> jsstring list \<Rightarrow> jsstring list" where
  "sniffKey doc key candidateFields =
     (case getField doc key of
        JStr v \<Rightarrow> if includesLink v then setAdd candidateFields key else candidateFields
      | JArr v \<Rightarrow> if list_ex itemIncludesLink v then setAdd candidateFields key
                 else candidateFields
      | _ \<Rightarrow> candidateFields)"

definition sniffDoc :: "document \<Rightarrow> jsstring list \<Rightarrow> jsstring list" where
  "sniffDoc doc candidateFields = fold (sniffKey doc) (keys doc) candidateFields"

definition sniff :: "document list \<Rightarrow> jsstring list" where
  "sniff sampleDocs = fold sniffDoc sampleDocs []"

section \<open>The URLs of a field value (lines 196--212 and 226--242)\<close>

text \<open>
  Both passes compute \<^verbatim>\<open>urls\<close> from \<^verbatim>\<open>value\<close> with the same lines. \<open>textUrls\<close>
  is what they do with one string (the value, or an item of an array): the matches
  of the pattern, or the string itself when there is no match and it starts with a
  scheme.
\<close>

definition startsWithScheme :: "jsstring \<Rightarrow> bool" where
  "startsWithScheme s \<longleftrightarrow>
     startsWith s (ascii ''http://'') \<or> startsWith s (ascii ''https://'')"

definition textUrls :: "jsstring \<Rightarrow> jsstring list" where
  "textUrls s =
     (let urls = extractUrlsFromText s
      in if length urls = 0 \<and> startsWithScheme s then urls @ [s] else urls)"

text \<open>The body of \<^verbatim>\<open>value.forEach(item => ...)\<close>.\<close>

definition itemUrls :: "jsval \<Rightarrow> jsstring list \<Rightarrow> jsstring list" where
  "itemUrls item urls = (case item of JStr s \<Rightarrow> urls @ textUrls s | _ \<Rightarrow> urls)"

definition valueUrls :: "jsval \<Rightarrow> jsstring list" where
  "valueUrls v =
     (case v of
        JStr s \<Rightarrow> textUrls s
      | JArr items \<Rightarrow> fold itemUrls items []
      | _ \<Rightarrow> [])"

section \<open>First pass: counting (lines 191--215)\<close>

definition countField :: "document \<Rightarrow> jsstring \<Rightarrow> nat \<Rightarrow> nat" where
  "countField doc field totalLinks =
     (let v = getField doc field
      in if \<not> truthy v then totalLinks else totalLinks + length (valueUrls v))"

definition countPass :: "document list \<Rightarrow> jsstring list \<Rightarrow> nat" where
  "countPass docs candidateFields =
     fold (\<lambda>doc. fold (countField doc) candidateFields) docs 0"

section \<open>The network and the state of a run\<close>

text \<open>
  \<^verbatim>\<open>fetch(url, { method })\<close> is the one effect of \<^verbatim>\<open>checkUrl\<close>. Its promise
  rejects with an error (a timeout, a refused connection, a DNS or TLS failure, a URL
  the client cannot parse) or resolves with a response, whose \<^verbatim>\<open>status\<close> is read
  directly and whose \<^verbatim>\<open>text()\<close> is a promise again. The network is any function
  from the requests made so far and the next request to an outcome, so the same
  request may be answered differently each time.
\<close>

datatype http_method = GET | HEAD

datatype js_error = JsError (message: jsstring)

datatype response = Response (status: nat) (body: "js_error + jsstring")

type_synonym request = "jsstring \<times> http_method"

type_synonym network = "request list \<Rightarrow> request \<Rightarrow> js_error + response"

text \<open>
  What the program writes, in order: \<^verbatim>\<open>console.log\<close>, \<^verbatim>\<open>console.error\<close> and
  \<^verbatim>\<open>process.stdout.write\<close> calls, each with the values its template inserts.
\<close>

datatype event =
    LogInspecting
  | LogNoFields
  | LogDetected "jsstring list"
  | LogTotal nat
  | LogBroken jsstring jsval jsstring nat nat
  | WriteProgress nat nat
  | LogComplete nat nat
  | ErrChecking jsstring jsstring
  | ErrOccurred js_error

datatype query = FindSample | FindAll

text \<open>
  The state a run threads through: the requests sent, the output, the queries sent to
  the collection, the two counters of the second pass, whether \<^verbatim>\<open>client.close()\<close>
  ran, and the exit code once \<^verbatim>\<open>process.exit\<close> was called. \<open>checked\<close> records each
  call \<^verbatim>\<open>checkUrl(url)\<close> of the second pass with the \<^verbatim>\<open>doc._id\<close> and \<^verbatim>\<open>field\<close>
  of the loops around it.
\<close>

record session =
  requests :: "request list"
  console :: "event list"
  queries :: "query list"
  checked :: "(jsval \<times> jsstring \<times> jsstring) list"
  currentLink :: nat
  brokenLinksCount :: nat
  clientClosed :: bool
  exitCode :: "nat option"

definition start :: session where
  "start = \<lparr>requests = [], console = [], queries = [], checked = [], currentLink = 0,
            brokenLinksCount = 0, clientClosed = False, exitCode = None\<rparr>"

section \<open>checkUrl (lines 37--68)\<close>

definition fetch ::
  "network \<Rightarrow> jsstring \<Rightarrow> http_method \<Rightarrow> request list \<Rightarrow> (js_error + response) \<times> request list"
where
  "fetch net url m reqs = (net reqs (url, m), reqs @ [(url, m)])"

definition isYouTube :: "jsstring \<Rightarrow> bool" where
  "isYouTube url \<longleftrightarrow>
     includesStr url (ascii ''youtube.com'') \<or> includesStr url (ascii ''youtu.be'')"

definition unavailablePhrases :: "jsstring list" where
  "unavailablePhrases =
     [ascii ''This video is no longer available'',
      ascii ''Video unavailable'',
      ascii ''This video is private'',
      ascii ''has been removed'']"

text \<open>
  The \<^verbatim>\<open>try\<close> block: \<open>Inl\<close> is the error it throws (a rejected \<^verbatim>\<open>await\<close>), \<open>Inr\<close>
  the value it returns. \<^verbatim>\<open>url\<close> is a string, so \<^verbatim>\<open>!url\<close> is \<open>url = []\<close>.
\<close>

definition checkUrlTry ::
  "network \<Rightarrow> jsstring \<Rightarrow> request list \<Rightarrow> (js_error + bool) \<times> request list"
where
  "checkUrlTry net url reqs =
     (if url = [] \<or> trimIsEmpty url then (Inr False, reqs)
      else if isYouTube url then
        (case fetch net url GET reqs of
           (Inl error, reqs1) \<Rightarrow> (Inl error, reqs1)
         | (Inr response, reqs1) \<Rightarrow>
             (case body response of
                Inl error \<Rightarrow> (Inl error, reqs1)
              | Inr text \<Rightarrow>
                  (Inr (list_ex (\<lambda>phrase. includesStr text phrase) unavailablePhrases), reqs1)))
      else
        (case fetch net url HEAD reqs of
           (Inl error, reqs1) \<Rightarrow> (Inl error, reqs1)
         | (Inr response, reqs1) \<Rightarrow>
             if status response = 404 then
               (case fetch net url GET reqs1 of
                  (Inl error, reqs2) \<Rightarrow> (Inl error, reqs2)
                | (Inr response2, reqs2) \<Rightarrow> (Inr (status response2 = 404), reqs2))
             else (Inr False, reqs1)))"

text \<open>With the \<^verbatim>\<open>catch\<close>: the error is written to the console and the result is \<^verbatim>\<open>true\<close>.\<close>

definition checkUrl :: "network \<Rightarrow> jsstring \<Rightarrow> session \<Rightarrow> bool \<times> session" where
  "checkUrl net url st =
     (case checkUrlTry net url (requests st) of
        (Inr broken, reqs) \<Rightarrow> (broken, st\<lparr>requests := reqs\<rparr>)
      | (Inl error, reqs) \<Rightarrow>
          (True, st\<lparr>requests := reqs,
                    console := console st @ [ErrChecking url (message error)]\<rparr>))"

text \<open>
  A fetch performed between two states of the request trace raised \<open>error\<close>: one of the
  requests added to the trace was answered with this error.
\<close>

definition fetchRaised :: "network \<Rightarrow> request list \<Rightarrow> request list \<Rightarrow> js_error \<Rightarrow> bool" where
  "fetchRaised net before after error \<longleftrightarrow>
     list_ex (\<lambda>i. net (take i after) (after ! i) = Inl error) [length before..<length after]"

text \<open>
  Reading the body raised \<open>error\<close>: the URL takes the YouTube branch, the only one that
  awaits \<^verbatim>\<open>response.text()\<close>, and the body of the response to its request is this
  error.
\<close>

definition textRaised :: "network \<Rightarrow> jsstring \<Rightarrow> request list \<Rightarrow> js_error \<Rightarrow> bool" where
  "textRaised net url before error \<longleftrightarrow>
     isYouTube url \<and>
     (case net before (url, GET) of
        Inl e \<Rightarrow> False
      | Inr response \<Rightarrow> body response = Inl error)"

section \<open>Second pass: checking (lines 222--254)\<close>

text \<open>\<^verbatim>\<open>for (const url of urls) { ... }\<close>\<close>

fun checkUrls ::
  "network \<Rightarrow> nat \<Rightarrow> document \<Rightarrow> jsstring \<Rightarrow> jsstring list \<Rightarrow> session \<Rightarrow> session"
where
  "checkUrls net totalLinks doc field [] st = st"
| "checkUrls net totalLinks doc field (url # urls) st =
     (let st1 = st\<lparr>currentLink := currentLink st + 1,
                   checked := checked st @ [(getField doc (ascii ''_id''), field, url)]\<rparr>;
          (broken, st2) = checkUrl net url st1;
          st3 = (if broken
                 then st2\<lparr>console := console st2 @
                             [LogBroken field (getField doc (ascii ''_id'')) url
                                (currentLink st2) totalLinks],
                          brokenLinksCount := brokenLinksCount st2 + 1\<rparr>
                 else st2\<lparr>console := console st2 @
                             [WriteProgress (currentLink st2) totalLinks]\<rparr>)
      in checkUrls net totalLinks doc field urls st3)"

definition checkField ::
  "network \<Rightarrow> nat \<Rightarrow> document \<Rightarrow> jsstring \<Rightarrow> session \<Rightarrow> session"
where
  "checkField net totalLinks doc field st =
     (let v = getField doc field
      in if \<not> truthy v then st else checkUrls net totalLinks doc field (valueUrls v) st)"

definition checkPass ::
  "network \<Rightarrow> nat \<Rightarrow> document list \<Rightarrow> jsstring list \<Rightarrow> session \<Rightarrow> session"
where
  "checkPass net totalLinks docs candidateFields st =
     fold (\<lambda>doc. fold (checkField net totalLinks doc) candidateFields) docs st"

section \<open>The run on a collection (lines 160--262)\<close>

text \<open>
  \<open>main\<close> is the function \<^verbatim>\<open>main\<close> from line 160 on, where the collection has been
  chosen. The collection answers two queries, \<^verbatim>\<open>find({}).limit(10).toArray()\<close> and
  \<^verbatim>\<open>find({}).toArray()\<close>, each with documents or with an error. \<open>catchError\<close> is the
  \<^verbatim>\<open>catch\<close> block and \<open>finish\<close> the \<^verbatim>\<open>finally\<close> block; the \<^verbatim>\<open>process.exit(0)\<close> of
  line 181 ends the process before either.
\<close>

record store =
  sampleDocs :: "js_error + document list"
  allDocs :: "js_error + document list"

definition finish :: "session \<Rightarrow> session" where
  "finish st = st\<lparr>clientClosed := True, exitCode := Some 0\<rparr>"

definition catchError :: "js_error \<Rightarrow> session \<Rightarrow> session" where
  "catchError error st = finish (st\<lparr>console := console st @ [ErrOccurred error]\<rparr>)"

definition main :: "store \<Rightarrow> network \<Rightarrow> session" where
  "main db net =
     (let st = start\<lparr>console := [LogInspecting], queries := [FindSample]\<rparr>
      in case sampleDocs db of
           Inl error \<Rightarrow> catchError error st
         | Inr sample \<Rightarrow>
             (let candidateFields = sniff sample
              in if length candidateFields = 0
                 then st\<lparr>console := console st @ [LogNoFields], exitCode := Some 0\<rparr>
                 else
                   (let st1 = st\<lparr>console := console st @ [LogDetected candidateFields],
                                 queries := queries st @ [FindAll]\<rparr>
                    in case allDocs db of
                         Inl error \<Rightarrow> catchError error st1
                       | Inr docs \<Rightarrow>
                           (let totalLinks = countPass docs candidateFields;
                                st2 = st1\<lparr>console := console st1 @ [LogTotal totalLinks]\<rparr>;
                                st3 = checkPass net totalLinks docs candidateFields st2
                            in finish
                                 (st3\<lparr>console := console st3 @
                                         [LogComplete (length docs) (brokenLinksCount st3)]\<rparr>)))))"

section \<open>The candidate fields of the specification\<close>

text \<open>
  The specification's condition for a field to enter the candidate set: the value is a
  text, or a sequence with an element that is a text, containing the literal substring
  \<^verbatim>\<open>http://\<close> or \<^verbatim>\<open>https://\<close>. \<open>sublist p s\<close> says that \<open>p\<close> occurs in \<open>s\<close>
  as a contiguous run.
\<close>

definition holdsLink :: "jsval \<Rightarrow> bool" where
  "holdsLink v \<longleftrightarrow>
     (\<exists>s. (v = JStr s \<or> (\<exists>items. v = JArr items \<and> JStr s \<in> set items))
          \<and> (sublist (ascii ''http://'') s \<or> sublist (ascii ''https://'') s))"

section \<open>The harvester of the specification\<close>

text \<open>
  The specification's \<^verbatim>\<open>harvest(documents, fields)\<close>, in its words: for each
  document in order, for each field in order, nothing for an absent value; for a text
  the extracted URLs, or the whole text when extraction finds nothing and the text
  begins with a scheme; for a sequence the same for every element that is a text,
  concatenated in element order. An occurrence is (document id, field name, URL).
\<close>

definition specTextUrls :: "jsstring \<Rightarrow> jsstring list" where
  "specTextUrls s =
     (if extractUrlsFromText s = [] \<and> startsWithScheme s then [s]
      else extractUrlsFromText s)"

fun specValueUrls :: "jsval \<Rightarrow> jsstring list" where
  "specValueUrls (JStr s) = specTextUrls s"
| "specValueUrls (JArr items) =
     concat (map (\<lambda>item. case item of JStr s \<Rightarrow> specTextUrls s | _ \<Rightarrow> []) items)"
| "specValueUrls _ = []"

definition harvest ::
  "document list \<Rightarrow> jsstring list \<Rightarrow> (jsval \<times> jsstring \<times> jsstring) list"
where
  "harvest docs fieldSet =
     concat (map (\<lambda>doc.
       concat (map (\<lambda>field.
         map (\<lambda>url. (getField doc (ascii ''_id''), field, url))
           (specValueUrls (getField doc field))) fieldSet)) docs)"

section \<open>A small collection\<close>

text \<open>
  The shape of the end-to-end scenario of the specification's section 8, with short
  URLs: document A has a link that answers 200, a video whose page says that it is
  unavailable, and an empty note; document B has an array with a link that answers 404
  to both requests. A further host answers 404 to \<^verbatim>\<open>HEAD\<close> and 200 to \<^verbatim>\<open>GET\<close>; any
  other host cannot be resolved.
\<close>

definition docA :: document where
  "docA = [(ascii ''_id'', JObj 1),
           (ascii ''link'', JStr (ascii ''http://a'')),
           (ascii ''video'', JStr (ascii ''see https://youtu.be/x'')),
           (ascii ''note'', JStr [])]"

definition docB :: document where
  "docB = [(ascii ''_id'', JObj 2),
           (ascii ''link'', JArr [JStr (ascii ''http://b''), JNum 7]),
           (ascii ''count'', JNum 0)]"

text \<open>
  Document C has a link whose host cannot be resolved, the last URL of its field, and
  after it a field with a link that answers 200.
\<close>

definition docC :: document where
  "docC = [(ascii ''_id'', JObj 3),
           (ascii ''link'', JStr (ascii ''http://c'')),
           (ascii ''video'', JStr (ascii ''http://a''))]"

definition exampleStore :: store where
  "exampleStore = \<lparr>sampleDocs = Inr [docA, docB], allDocs = Inr [docA, docB]\<rparr>"

definition exampleNet :: network where
  "exampleNet reqs r =
     (if fst r = ascii ''http://a'' then Inr (Response 200 (Inr []))
      else if fst r = ascii ''https://youtu.be/x''
        then Inr (Response 200 (Inr (ascii ''Video unavailable'')))
      else if fst r = ascii ''http://b'' then Inr (Response 404 (Inr []))
      else if fst r = ascii ''http://h''
        then Inr (Response (if snd r = HEAD then 404 else 200) (Inr []))
      else Inl (JsError (ascii ''ENOTFOUND'')))"

section \<open>Facts about the string operations\<close>

lemma ascii_http: "ascii ''http://'' = [104, 116, 116, 112, 58, 47, 47]"
  by (simp add: ascii_def)

lemma ascii_https: "ascii ''https://'' = [104, 116, 116, 112, 115, 58, 47, 47]"
  by (simp add: ascii_def)

lemma matchScheme_http:
  "matchScheme (ascii ''http://'' @ rest) = Some (ascii ''http://'', rest)"
  by (simp add: matchScheme_def startsWith_def ascii_http ascii_https)

lemma matchScheme_https:
  "matchScheme (ascii ''https://'' @ rest) = Some (ascii ''https://'', rest)"
  by (simp add: matchScheme_def startsWith_def ascii_https)

lemma matchAt_whole:
  assumes "scheme = ascii ''http://'' \<or> scheme = ascii ''https://''"
    and "rest \<noteq> []" and "list_all urlChar rest"
  shows "matchAt (scheme @ rest) = Some (scheme @ rest, [])"
proof -
  from assms(3) have tw: "takeWhile urlChar rest = rest" and dw: "dropWhile urlChar rest = []"
    by (simp_all add: list_all_iff)
  from assms(1) have ms: "matchScheme (scheme @ rest) = Some (scheme, rest)"
    using matchScheme_http matchScheme_https by blast
  have "matchAt (scheme @ rest) =
          (if takeWhile urlChar rest = [] then None
           else Some (scheme @ takeWhile urlChar rest, dropWhile urlChar rest))"
    by (simp add: matchAt_def ms)
  also have "\<dots> = Some (scheme @ rest, [])"
    by (simp only: tw dw) (simp add: assms(2))
  finally show ?thesis .
qed

lemma startsWith_prefix: "startsWith s p \<longleftrightarrow> prefix p s"
  by (metis startsWith_def prefix_def append_eq_conv_conj take_is_prefix)

lemma includesStr_sublist: "includesStr s p \<longleftrightarrow> sublist p s"
  by (induction s) (auto simp: startsWith_prefix sublist_Cons_right)

lemma includesLink_sublist:
  "includesLink s \<longleftrightarrow> sublist (ascii ''http://'') s \<or> sublist (ascii ''https://'') s"
  by (simp add: includesLink_def includesStr_sublist)

section \<open>Facts about the candidate fields\<close>

lemma set_setAdd: "set (setAdd s key) = insert key (set s)"
  by (auto simp: setAdd_def)

lemma itemIncludesLink_iff:
  "itemIncludesLink item \<longleftrightarrow> (\<exists>s. item = JStr s \<and> includesLink s)"
  by (cases item) (simp_all add: itemIncludesLink_def)

lemma list_ex_itemIncludesLink:
  "list_ex itemIncludesLink items \<longleftrightarrow> (\<exists>s. JStr s \<in> set items \<and> includesLink s)"
  by (auto simp: list_ex_iff itemIncludesLink_iff)

lemma set_sniffKey:
  "set (sniffKey doc key cf) = set cf \<union> (if holdsLink (getField doc key) then {key} else {})"
  by (cases "getField doc key")
    (auto simp: sniffKey_def holdsLink_def set_setAdd list_ex_itemIncludesLink includesLink_sublist)

lemma set_fold_sniffKey:
  "set (fold (sniffKey doc) ks cf) = set cf \<union> {key \<in> set ks. holdsLink (getField doc key)}"
  by (induction ks arbitrary: cf) (auto simp: set_sniffKey)

lemma holdsLink_own: "holdsLink (getField doc key) \<Longrightarrow> key \<in> set (keys doc)"
  by (auto simp: holdsLink_def getField_def keys_def split: option.splits dest: map_of_SomeD
      intro: rev_image_eqI)

lemma set_sniffDoc:
  "set (sniffDoc doc cf) = set cf \<union> {key. holdsLink (getField doc key)}"
  using holdsLink_own by (auto simp: sniffDoc_def set_fold_sniffKey)

lemma set_fold_sniffDoc:
  "set (fold sniffDoc docs cf) = set cf \<union> {key. \<exists>doc \<in> set docs. holdsLink (getField doc key)}"
  by (induction docs arbitrary: cf) (auto simp: set_sniffDoc)

section \<open>Facts about the two passes\<close>

lemma textUrls_spec: "textUrls s = specTextUrls s"
  by (simp add: textUrls_def specTextUrls_def Let_def)

lemma fold_itemUrls:
  "fold itemUrls items urls =
     urls @ concat (map (\<lambda>item. case item of JStr s \<Rightarrow> specTextUrls s | _ \<Rightarrow> []) items)"
  by (induction items arbitrary: urls) (auto simp: itemUrls_def textUrls_spec split: jsval.splits)

lemma valueUrls_spec: "valueUrls v = specValueUrls v"
  by (cases v) (simp_all add: valueUrls_def textUrls_spec fold_itemUrls)

lemma startsWithScheme_Nil: "\<not> startsWithScheme []"
  by (simp add: startsWithScheme_def startsWith_def ascii_def)

lemma falsy_no_urls: "\<not> truthy v \<Longrightarrow> specValueUrls v = []"
  by (cases v) (simp_all add: specTextUrls_def startsWithScheme_Nil)

lemma countField_spec:
  "countField doc field n = n + length (specValueUrls (getField doc field))"
  by (simp add: countField_def Let_def valueUrls_spec falsy_no_urls)

lemma fold_countField:
  "fold (countField doc) fs n =
     n + length (concat (map (\<lambda>field. map (\<lambda>url. (getField doc (ascii ''_id''), field, url))
           (specValueUrls (getField doc field))) fs))"
  by (induction fs arbitrary: n) (simp_all add: countField_spec)

lemma fold_countDocs:
  "fold (\<lambda>doc. fold (countField doc) fs) docs n = n + length (harvest docs fs)"
  by (induction docs arbitrary: n) (simp_all add: fold_countField harvest_def)

lemma countPass_harvest: "countPass docs fs = length (harvest docs fs)"
  by (simp add: countPass_def fold_countDocs)

lemma checkUrl_keeps:
  assumes "checkUrl net url st = (broken, st')"
  shows "checked st' = checked st" and "currentLink st' = currentLink st"
    and "brokenLinksCount st' = brokenLinksCount st"
  using assms by (auto simp: checkUrl_def split: prod.splits sum.splits)

lemma checkUrls_step:
  assumes "checkUrl net url
      (st\<lparr>currentLink := currentLink st + 1,
          checked := checked st @ [(getField doc (ascii ''_id''), field, url)]\<rparr>) = (broken, st2)"
  shows "checkUrls net tot doc field (url # urls) st =
     checkUrls net tot doc field urls
       (if broken
        then st2\<lparr>console := console st2 @
               [LogBroken field (getField doc (ascii ''_id'')) url (currentLink st2) tot],
             brokenLinksCount := brokenLinksCount st2 + 1\<rparr>
        else st2\<lparr>console := console st2 @ [WriteProgress (currentLink st2) tot]\<rparr>)"
  using assms by (simp add: Let_def)

lemma checkUrls_trace:
  "checked (checkUrls net tot doc field urls st) =
     checked st @ map (\<lambda>url. (getField doc (ascii ''_id''), field, url)) urls
   \<and> currentLink (checkUrls net tot doc field urls st) = currentLink st + length urls"
proof (induction urls arbitrary: st)
  case Nil
  show ?case by simp
next
  case (Cons url urls)
  obtain broken st2 where c: "checkUrl net url
      (st\<lparr>currentLink := currentLink st + 1,
          checked := checked st @ [(getField doc (ascii ''_id''), field, url)]\<rparr>) = (broken, st2)"
    by (cases "checkUrl net url
      (st\<lparr>currentLink := currentLink st + 1,
          checked := checked st @ [(getField doc (ascii ''_id''), field, url)]\<rparr>)")
  from checkUrl_keeps [OF c] show ?case
    by (simp only: checkUrls_step [OF c] Cons.IH) simp
qed

lemma checkField_trace:
  "checked (checkField net tot doc field st) =
     checked st @ map (\<lambda>url. (getField doc (ascii ''_id''), field, url))
        (specValueUrls (getField doc field))
   \<and> currentLink (checkField net tot doc field st) =
       currentLink st + length (specValueUrls (getField doc field))"
  by (simp add: checkField_def Let_def checkUrls_trace valueUrls_spec falsy_no_urls)

lemma fold_checkField:
  "checked (fold (checkField net tot doc) fs st) =
     checked st @ concat (map (\<lambda>field. map (\<lambda>url. (getField doc (ascii ''_id''), field, url))
        (specValueUrls (getField doc field))) fs)
   \<and> currentLink (fold (checkField net tot doc) fs st) =
       currentLink st + length (concat (map (\<lambda>field.
          map (\<lambda>url. (getField doc (ascii ''_id''), field, url))
            (specValueUrls (getField doc field))) fs))"
  by (induction fs arbitrary: st) (simp_all add: checkField_trace)

lemma checkPass_trace:
  "checked (checkPass net tot docs fs st) = checked st @ harvest docs fs
   \<and> currentLink (checkPass net tot docs fs st) = currentLink st + length (harvest docs fs)"
  unfolding checkPass_def
  by (induction docs arbitrary: st) (simp_all add: fold_checkField harvest_def)

lemma checkField_urls:
  "checkField net tot doc field s =
     checkUrls net tot doc field (valueUrls (getField doc field)) s"
  by (simp add: checkField_def Let_def valueUrls_spec falsy_no_urls)

lemma checkUrls_append:
  "checkUrls net tot doc field (us1 @ us2) s =
     checkUrls net tot doc field us2 (checkUrls net tot doc field us1 s)"
proof (induction us1 arbitrary: s)
  case Nil
  show ?case by simp
next
  case (Cons u us1)
  obtain broken st2 where c: "checkUrl net u
      (s\<lparr>currentLink := currentLink s + 1,
         checked := checked s @ [(getField doc (ascii ''_id''), field, u)]\<rparr>) = (broken, st2)"
    by (cases "checkUrl net u
      (s\<lparr>currentLink := currentLink s + 1,
         checked := checked s @ [(getField doc (ascii ''_id''), field, u)]\<rparr>)")
  show ?case
    using checkUrls_step [OF c, of tot "us1 @ us2"] checkUrls_step [OF c, of tot us1]
    by (simp only: append_Cons Cons.IH)
qed

lemma checkPass_split:
  "checkPass net tot (docs1 @ doc # docs2) (fs1 @ field # fs2) s =
     checkPass net tot docs2 (fs1 @ field # fs2)
       (fold (checkField net tot doc) fs2
          (checkField net tot doc field
             (fold (checkField net tot doc) fs1
                (checkPass net tot docs1 (fs1 @ field # fs2) s))))"
  by (simp add: checkPass_def)

lemma main_completes:
  assumes "sampleDocs db = Inr sample" and "sniff sample \<noteq> []" and "allDocs db = Inr docs"
  shows "checked (main db net) = harvest docs (sniff sample)"
    and "exitCode (main db net) = Some 0"
    and "last (console (main db net)) = LogComplete (length docs) (brokenLinksCount (main db net))"
  using assms by (simp_all add: main_def Let_def finish_def checkPass_trace start_def)

lemma set_harvest:
  "set (harvest docs fs) =
     {(getField doc (ascii ''_id''), field, url) | doc field url.
        doc \<in> set docs \<and> field \<in> set fs \<and> url \<in> set (specValueUrls (getField doc field))}"
  by (auto simp: harvest_def)

lemma specTextUrls_scheme:
  assumes "startsWithScheme s"
  shows "specTextUrls s \<noteq> []" and "extractUrlsFromText s = [] \<Longrightarrow> specTextUrls s = [s]"
  using assms by (auto simp: specTextUrls_def)

lemma specTextUrls_in_value:
  assumes "v = JStr s \<or> (\<exists>items. v = JArr items \<and> JStr s \<in> set items)"
  shows "set (specTextUrls s) \<subseteq> set (specValueUrls v)"
  using assms by (auto intro!: bexI [where x = "JStr s"])

section \<open>Facts about checkUrl\<close>

lemma sublist_not_blank:
  assumes "sublist p url" and "c \<in> set p" and "\<not> isWhiteSpace c"
  shows "url \<noteq> [] \<and> \<not> trimIsEmpty url"
proof -
  from assms(1,2) have "c \<in> set url" using set_mono_sublist by blast
  with assms(3) show ?thesis by (auto simp: trimIsEmpty_def list_all_iff)
qed

lemma isYouTube_not_blank:
  assumes "isYouTube url"
  shows "url \<noteq> [] \<and> \<not> trimIsEmpty url"
proof -
  have y: "121 \<in> set (ascii ''youtube.com'')" "121 \<in> set (ascii ''youtu.be'')"
    by (simp_all add: ascii_def)
  have "\<not> isWhiteSpace 121" by (simp add: isWhiteSpace_def)
  with assms y show ?thesis
    unfolding isYouTube_def includesStr_sublist using sublist_not_blank by blast
qed


lemma list_ex_unavailablePhrases:
  "list_ex (\<lambda>phrase. includesStr text phrase) unavailablePhrases \<longleftrightarrow>
     sublist (ascii ''This video is no longer available'') text
     \<or> sublist (ascii ''Video unavailable'') text
     \<or> sublist (ascii ''This video is private'') text
     \<or> sublist (ascii ''has been removed'') text"
  by (simp add: unavailablePhrases_def includesStr_sublist)

section \<open>The small collection, evaluated\<close>

lemma sniff_example: "sniff [docA, docB] = [ascii ''link'', ascii ''video'']"
  by (simp add: sniff_def sniffDoc_def sniffKey_def keys_def getField_def setAdd_def
      includesLink_def itemIncludesLink_def startsWith_def docA_def docB_def ascii_def)

lemma harvest_example:
  "harvest [docA, docB] [ascii ''link'', ascii ''video''] =
     [(JObj 1, ascii ''link'', ascii ''http://a''),
      (JObj 1, ascii ''video'', ascii ''https://youtu.be/x''),
      (JObj 2, ascii ''link'', ascii ''http://b'')]"
  by (simp add: harvest_def getField_def docA_def docB_def specTextUrls_def
      matchAt_def matchScheme_def startsWith_def urlChar_def isWhiteSpace_def ascii_def)

lemma plain_example_urls:
  "\<not> list_all isWhiteSpace (ascii ''http://a'')" "\<not> isYouTube (ascii ''http://a'')"
  "\<not> list_all isWhiteSpace (ascii ''http://b'')" "\<not> isYouTube (ascii ''http://b'')"
  "\<not> list_all isWhiteSpace (ascii ''http://h'')" "\<not> isYouTube (ascii ''http://h'')"
  by (simp_all add: isYouTube_def startsWith_def isWhiteSpace_def ascii_def)

lemma exampleNet_answers:
  "exampleNet reqs (ascii ''http://a'', m) = Inr (Response 200 (Inr []))"
  "exampleNet reqs (ascii ''http://b'', m) = Inr (Response 404 (Inr []))"
  "exampleNet reqs (ascii ''http://h'', HEAD) = Inr (Response 404 (Inr []))"
  "exampleNet reqs (ascii ''http://h'', GET) = Inr (Response 200 (Inr []))"
  "exampleNet reqs (ascii ''http://c'', m) = Inl (JsError (ascii ''ENOTFOUND''))"
  by (simp_all add: exampleNet_def ascii_def)

text \<open>
  The run on the small collection: the fields \<^verbatim>\<open>link\<close> and \<^verbatim>\<open>video\<close> are detected,
  three links are counted, and two of them are reported broken, as the scenario of the
  specification expects.
\<close>

lemma ascii_eq_Nil: "ascii s = [] \<longleftrightarrow> s = []"
  by (simp add: ascii_def)

lemma countPass_example: "countPass [docA, docB] [ascii ''link'', ascii ''video''] = 3"
  by (simp add: countPass_harvest harvest_example)

lemma checkUrl_example:
  "checkUrl exampleNet (ascii ''http://a'') s =
     (False, s\<lparr>requests := requests s @ [(ascii ''http://a'', HEAD)]\<rparr>)"
  "checkUrl exampleNet (ascii ''http://b'') s =
     (True, s\<lparr>requests := requests s @ [(ascii ''http://b'', HEAD), (ascii ''http://b'', GET)]\<rparr>)"
  using plain_example_urls
  by (auto simp: checkUrl_def checkUrlTry_def fetch_def trimIsEmpty_def exampleNet_answers)

lemma checkUrl_example_video:
  "checkUrl exampleNet (ascii ''https://youtu.be/x'') s =
     (True, s\<lparr>requests := requests s @ [(ascii ''https://youtu.be/x'', GET)]\<rparr>)"
proof -
  have yt: "isYouTube (ascii ''https://youtu.be/x'')"
    by (simp add: isYouTube_def startsWith_def ascii_def)
  have answer: "exampleNet reqs (ascii ''https://youtu.be/x'', GET) =
      Inr (Response 200 (Inr (ascii ''Video unavailable'')))" for reqs
    by (simp add: exampleNet_def ascii_def)
  have found: "sublist (ascii ''Video unavailable'') (ascii ''Video unavailable'')"
    by simp
  from isYouTube_not_blank [OF yt] yt found show ?thesis
    by (simp add: checkUrl_def checkUrlTry_def fetch_def answer list_ex_unavailablePhrases)
qed

lemma example_fields:
  "getField docA (ascii ''_id'') = JObj 1"
  "getField docA (ascii ''link'') = JStr (ascii ''http://a'')"
  "getField docA (ascii ''video'') = JStr (ascii ''see https://youtu.be/x'')"
  "getField docB (ascii ''_id'') = JObj 2"
  "getField docB (ascii ''link'') = JArr [JStr (ascii ''http://b''), JNum 7]"
  "getField docB (ascii ''video'') = JUndefined"
  by (simp_all add: getField_def docA_def docB_def ascii_def)

lemma example_urls:
  "specTextUrls (ascii ''http://a'') = [ascii ''http://a'']"
  "specTextUrls (ascii ''http://b'') = [ascii ''http://b'']"
  "specTextUrls (ascii ''see https://youtu.be/x'') = [ascii ''https://youtu.be/x'']"
  by (simp_all add: specTextUrls_def matchAt_def matchScheme_def startsWith_def urlChar_def
      isWhiteSpace_def ascii_def)

lemma checkPass_example:
  "checkPass exampleNet 3 [docA, docB] [ascii ''link'', ascii ''video''] s =
     s\<lparr>requests := requests s @
           [(ascii ''http://a'', HEAD), (ascii ''https://youtu.be/x'', GET),
            (ascii ''http://b'', HEAD), (ascii ''http://b'', GET)],
        console := console s @
           [WriteProgress (currentLink s + 1) 3,
            LogBroken (ascii ''video'') (JObj 1) (ascii ''https://youtu.be/x'') (currentLink s + 2) 3,
            LogBroken (ascii ''link'') (JObj 2) (ascii ''http://b'') (currentLink s + 3) 3],
        checked := checked s @
           [(JObj 1, ascii ''link'', ascii ''http://a''),
            (JObj 1, ascii ''video'', ascii ''https://youtu.be/x''),
            (JObj 2, ascii ''link'', ascii ''http://b'')],
        currentLink := currentLink s + 3,
        brokenLinksCount := brokenLinksCount s + 2\<rparr>"
  by (simp add: checkPass_def checkField_def example_fields valueUrls_spec example_urls
      checkUrl_example checkUrl_example_video ascii_eq_Nil)

lemma main_example:
  "main exampleStore exampleNet =
     \<lparr>requests = [(ascii ''http://a'', HEAD), (ascii ''https://youtu.be/x'', GET),
                  (ascii ''http://b'', HEAD), (ascii ''http://b'', GET)],
      console = [LogInspecting, LogDetected [ascii ''link'', ascii ''video''], LogTotal 3,
                 WriteProgress 1 3,
                 LogBroken (ascii ''video'') (JObj 1) (ascii ''https://youtu.be/x'') 2 3,
                 LogBroken (ascii ''link'') (JObj 2) (ascii ''http://b'') 3 3,
                 LogComplete 2 2],
      queries = [FindSample, FindAll],
      checked = [(JObj 1, ascii ''link'', ascii ''http://a''),
                 (JObj 1, ascii ''video'', ascii ''https://youtu.be/x''),
                 (JObj 2, ascii ''link'', ascii ''http://b'')],
      currentLink = 3, brokenLinksCount = 2, clientClosed = True, exitCode = Some 0\<rparr>"
  by (simp add: main_def exampleStore_def sniff_example countPass_example checkPass_example
      finish_def start_def)

lemma docC_fields:
  "getField docC (ascii ''_id'') = JObj 3"
  "getField docC (ascii ''link'') = JStr (ascii ''http://c'')"
  "getField docC (ascii ''video'') = JStr (ascii ''http://a'')"
  by (simp_all add: getField_def docC_def ascii_def)

lemma docC_urls: "specTextUrls (ascii ''http://c'') = [ascii ''http://c'']"
  by (simp add: specTextUrls_def matchAt_def matchScheme_def startsWith_def urlChar_def
      isWhiteSpace_def ascii_def)

section \<open>The claims\<close>

subsection \<open>C1: the two passes enumerate the same occurrences\<close>

text \<open>
  C1. For every list of documents and every candidate field set, the total that the
  first pass counts is the number of occurrences of the specification's harvester; the
  second pass calls \<^verbatim>\<open>checkUrl\<close> on exactly these occurrences, in the harvester's
  order, whatever the network answers; so the number of its calls, and the amount by
  which it advances \<^verbatim>\<open>currentLink\<close>, is the total of the first pass.
\<close>

theorem passes_enumerate_alike:
  "countPass docs fs = length (harvest docs fs)
   \<and> checked (checkPass net tot docs fs st) = checked st @ harvest docs fs
   \<and> length (checked (checkPass net tot docs fs st)) = length (checked st) + countPass docs fs
   \<and> currentLink (checkPass net tot docs fs st) = currentLink st + countPass docs fs"
  by (simp add: countPass_harvest checkPass_trace)

theorem passes_enumerate_alike_witness:
  "countPass [docA, docB] [ascii ''link'', ascii ''video''] = 3
   \<and> checked (checkPass exampleNet 3 [docA, docB] [ascii ''link'', ascii ''video''] start) =
       [(JObj 1, ascii ''link'', ascii ''http://a''),
        (JObj 1, ascii ''video'', ascii ''https://youtu.be/x''),
        (JObj 2, ascii ''link'', ascii ''http://b'')]
   \<and> currentLink (checkPass exampleNet 3 [docA, docB] [ascii ''link'', ascii ''video''] start) = 3"
  using passes_enumerate_alike [of "[docA, docB]" "[ascii ''link'', ascii ''video'']"
      exampleNet 3 start]
  by (simp add: harvest_example start_def)

subsection \<open>C2: a YouTube URL is judged by the page\<close>

text \<open>
  C2. Let a URL have a host, any part of it, that contains \<^verbatim>\<open>youtube.com\<close> or
  \<^verbatim>\<open>youtu.be\<close>, and let its \<^verbatim>\<open>GET\<close> request be answered with a response whose body
  can be read. Then \<^verbatim>\<open>checkUrl\<close> sends exactly this one \<^verbatim>\<open>GET\<close> request and
  returns \<^verbatim>\<open>true\<close> if and only if the body contains one of the four phrases; the
  status code of the response, which is arbitrary here, has no part in it.
\<close>

theorem youtube_checked_by_content:
  assumes "url = pre @ host @ post"
    and "sublist (ascii ''youtube.com'') host \<or> sublist (ascii ''youtu.be'') host"
    and "net (requests st) (url, GET) = Inr (Response code (Inr text))"
  shows "checkUrl net url st =
     (sublist (ascii ''This video is no longer available'') text
       \<or> sublist (ascii ''Video unavailable'') text
       \<or> sublist (ascii ''This video is private'') text
       \<or> sublist (ascii ''has been removed'') text,
      st\<lparr>requests := requests st @ [(url, GET)]\<rparr>)"
proof -
  have "sublist host url" using assms(1) by simp
  with assms(2) have yt: "isYouTube url"
    unfolding isYouTube_def includesStr_sublist using sublist_order.order_trans by blast
  from isYouTube_not_blank [OF yt] yt assms(3) show ?thesis
    by (simp add: checkUrl_def checkUrlTry_def fetch_def list_ex_unavailablePhrases)
qed

theorem youtube_checked_by_content_witness:
  "checkUrl exampleNet (ascii ''https://youtu.be/x'') start =
     (True, start\<lparr>requests := [(ascii ''https://youtu.be/x'', GET)]\<rparr>)
   \<and> checkUrl (\<lambda>reqs r. Inr (Response 404 (Inr (ascii ''ok'')))) (ascii ''https://youtu.be/x'') start =
     (False, start\<lparr>requests := [(ascii ''https://youtu.be/x'', GET)]\<rparr>)"
proof -
  have url: "ascii ''https://youtu.be/x'' = ascii ''https://'' @ ascii ''youtu.be'' @ ascii ''/x''"
    by (simp add: ascii_def)
  have host: "sublist (ascii ''youtube.com'') (ascii ''youtu.be'')
      \<or> sublist (ascii ''youtu.be'') (ascii ''youtu.be'')"
    by simp
  have answer: "exampleNet (requests start) (ascii ''https://youtu.be/x'', GET) =
      Inr (Response 200 (Inr (ascii ''Video unavailable'')))"
    by (simp add: exampleNet_def ascii_def)
  have answer': "(\<lambda>reqs r. Inr (Response 404 (Inr (ascii ''ok''))))
      (requests start) (ascii ''https://youtu.be/x'', GET) = Inr (Response 404 (Inr (ascii ''ok'')))"
    by simp
  have found: "sublist (ascii ''Video unavailable'') (ascii ''Video unavailable'')"
    by simp
  have none: "\<not> sublist (ascii ''This video is no longer available'') (ascii ''ok'')"
    "\<not> sublist (ascii ''Video unavailable'') (ascii ''ok'')"
    "\<not> sublist (ascii ''This video is private'') (ascii ''ok'')"
    "\<not> sublist (ascii ''has been removed'') (ascii ''ok'')"
    by (simp_all add: ascii_def sublist_code prefix_code)
  show ?thesis
    using youtube_checked_by_content [where net = exampleNet and st = start, OF url host answer]
      youtube_checked_by_content [where net = "\<lambda>reqs r. Inr (Response 404 (Inr (ascii ''ok'')))"
        and st = start, OF url host answer'] found none
    by (simp add: start_def)
qed

subsection \<open>C3: any other URL is judged by the status\<close>




subsection \<open>C4: a transport failure counts as broken\<close>

text \<open>
  C4. Let \<^verbatim>\<open>checkUrl\<close> be called by the second pass for a URL of a field of a
  document, and let a fetch that it performs raise an error, or the reading of the
  body. Then \<^verbatim>\<open>checkUrl\<close> returns \<^verbatim>\<open>true\<close> and writes the URL and the message of the
  error to the console. The pass counts and reports the URL as broken and goes on: with
  the remaining URLs of the field, then with the remaining fields of the document, then
  with the remaining documents, also when the URL is the last of its field. On this
  network the pass checks every occurrence of the harvester and advances
  \<^verbatim>\<open>currentLink\<close> by the total of the first pass, and a run whose queries answer and
  whose sample has a candidate field ends with the summary line and exit code 0.
\<close>

theorem transport_failure_is_broken:
  assumes "st = st0\<lparr>currentLink := currentLink st0 + 1,
                     checked := checked st0 @ [(getField doc (ascii ''_id''), field, url)]\<rparr>"
    and "checkUrl net url st = (broken, st')"
    and "fetchRaised net (requests st) (requests st') error
         \<or> textRaised net url (requests st) error"
    and "recorded = st'\<lparr>console := console st' @
                          [LogBroken field (getField doc (ascii ''_id'')) url (currentLink st') tot],
                        brokenLinksCount := brokenLinksCount st' + 1\<rparr>"
  shows "broken
     \<and> console st' = console st @ [ErrChecking url (message error)]
     \<and> checkUrls net tot doc field (url # urls) st0 = checkUrls net tot doc field urls recorded
     \<and> (\<forall>docs1 docs2 fs1 fs2 urls1 s.
           valueUrls (getField doc field) = urls1 @ url # urls
           \<and> st0 = checkUrls net tot doc field urls1
                     (fold (checkField net tot doc) fs1
                        (checkPass net tot docs1 (fs1 @ field # fs2) s))
           \<longrightarrow> checkPass net tot (docs1 @ doc # docs2) (fs1 @ field # fs2) s =
                 checkPass net tot docs2 (fs1 @ field # fs2)
                   (fold (checkField net tot doc) fs2
                      (checkUrls net tot doc field urls recorded)))
     \<and> (\<forall>docs fs s.
           checked (checkPass net tot docs fs s) = checked s @ harvest docs fs
           \<and> currentLink (checkPass net tot docs fs s) = currentLink s + countPass docs fs)
     \<and> (\<forall>db sample docs.
           sampleDocs db = Inr sample \<and> sniff sample \<noteq> [] \<and> allDocs db = Inr docs
           \<longrightarrow> checked (main db net) = harvest docs (sniff sample)
               \<and> exitCode (main db net) = Some 0
               \<and> last (console (main db net)) =
                   LogComplete (length docs) (brokenLinksCount (main db net)))"
proof -
  from assms(2,3) have b: "broken"
    and c: "console st' = console st @ [ErrChecking url (message error)]"
    using isYouTube_not_blank [of url]
    by (auto simp: checkUrl_def checkUrlTry_def fetch_def fetchRaised_def textRaised_def
        nth_append split: if_splits sum.splits)
  from assms(2) have step: "checkUrls net tot doc field (url # us) st0 =
      checkUrls net tot doc field us recorded" for us
    unfolding assms(1,4) using checkUrls_step [of net url st0 doc field broken st' tot us] b
    by simp
  have pass: "checkPass net tot (docs1 @ doc # docs2) (fs1 @ field # fs2) s =
      checkPass net tot docs2 (fs1 @ field # fs2)
        (fold (checkField net tot doc) fs2 (checkUrls net tot doc field urls recorded))"
    if v: "valueUrls (getField doc field) = urls1 @ url # urls"
      and s0: "st0 = checkUrls net tot doc field urls1
          (fold (checkField net tot doc) fs1 (checkPass net tot docs1 (fs1 @ field # fs2) s))"
    for docs1 docs2 fs1 fs2 urls1 s
  proof -
    have "checkField net tot doc field
            (fold (checkField net tot doc) fs1 (checkPass net tot docs1 (fs1 @ field # fs2) s)) =
          checkUrls net tot doc field (url # urls) st0"
      by (simp only: checkField_urls v checkUrls_append s0)
    then show ?thesis
      by (simp only: checkPass_split step)
  qed
  have every: "checked (checkPass net tot docs fs s) = checked s @ harvest docs fs
      \<and> currentLink (checkPass net tot docs fs s) = currentLink s + countPass docs fs"
    for docs fs s
    by (simp add: checkPass_trace countPass_harvest)
  from b c step [of urls] pass every show ?thesis
    using main_completes [of _ _ _ net] by blast
qed

theorem transport_failure_is_broken_witness:
  "checkPass exampleNet 3 [docC, docB] [ascii ''link'', ascii ''video''] start =
     \<lparr>requests = [(ascii ''http://c'', HEAD), (ascii ''http://a'', HEAD),
                  (ascii ''http://b'', HEAD), (ascii ''http://b'', GET)],
      console = [ErrChecking (ascii ''http://c'') (ascii ''ENOTFOUND''),
                 LogBroken (ascii ''link'') (JObj 3) (ascii ''http://c'') 1 3,
                 WriteProgress 2 3,
                 LogBroken (ascii ''link'') (JObj 2) (ascii ''http://b'') 3 3],
      queries = [],
      checked = [(JObj 3, ascii ''link'', ascii ''http://c''),
                 (JObj 3, ascii ''video'', ascii ''http://a''),
                 (JObj 2, ascii ''link'', ascii ''http://b'')],
      currentLink = 3, brokenLinksCount = 2, clientClosed = False, exitCode = None\<rparr>"
proof -
  define st where "st = start\<lparr>currentLink := currentLink start + 1,
      checked := checked start @ [(getField docC (ascii ''_id''), ascii ''link'', ascii ''http://c'')]\<rparr>"
  define st' where "st' = st\<lparr>requests := [(ascii ''http://c'', HEAD)],
      console := [ErrChecking (ascii ''http://c'') (ascii ''ENOTFOUND'')]\<rparr>"
  define recorded where "recorded = st'\<lparr>console := console st' @
      [LogBroken (ascii ''link'') (getField docC (ascii ''_id'')) (ascii ''http://c'')
         (currentLink st') 3],
      brokenLinksCount := brokenLinksCount st' + 1\<rparr>"
  have blank: "\<not> list_all isWhiteSpace (ascii ''http://c'')" "\<not> isYouTube (ascii ''http://c'')"
    by (simp_all add: isYouTube_def startsWith_def isWhiteSpace_def ascii_def)
  have reqs: "requests st = []" "console st = []"
    by (simp_all add: st_def start_def)
  have run: "checkUrl exampleNet (ascii ''http://c'') st = (True, st')"
    using blank
    by (auto simp: checkUrl_def checkUrlTry_def fetch_def trimIsEmpty_def exampleNet_answers
        reqs st'_def)
  have raised: "fetchRaised exampleNet (requests st) (requests st') (JsError (ascii ''ENOTFOUND''))
      \<or> textRaised exampleNet (ascii ''http://c'') (requests st) (JsError (ascii ''ENOTFOUND''))"
    by (simp add: fetchRaised_def st'_def reqs exampleNet_answers)
  have last_of_field: "valueUrls (getField docC (ascii ''link'')) = [] @ ascii ''http://c'' # []"
    by (simp add: docC_fields valueUrls_spec docC_urls)
  have before: "start = checkUrls exampleNet 3 docC (ascii ''link'') []
      (fold (checkField exampleNet 3 docC) []
         (checkPass exampleNet 3 [] ([] @ ascii ''link'' # [ascii ''video'']) start))"
    by (simp add: checkPass_def)
  note goes_on = transport_failure_is_broken [where urls = "[]", OF st_def run raised recorded_def,
      THEN conjunct2, THEN conjunct2, THEN conjunct2, THEN conjunct1, rule_format,
      where ?docs1.0 = "[]" and ?docs2.0 = "[docB]" and ?fs1.0 = "[]"
        and ?fs2.0 = "[ascii ''video'']" and ?urls1.0 = "[]" and s = start,
      OF conjI, OF last_of_field before]
  have rest: "checkPass exampleNet 3 [docB] [ascii ''link'', ascii ''video'']
      (fold (checkField exampleNet 3 docC) [ascii ''video'']
         (checkUrls exampleNet 3 docC (ascii ''link'') [] recorded)) =
     \<lparr>requests = [(ascii ''http://c'', HEAD), (ascii ''http://a'', HEAD),
                  (ascii ''http://b'', HEAD), (ascii ''http://b'', GET)],
      console = [ErrChecking (ascii ''http://c'') (ascii ''ENOTFOUND''),
                 LogBroken (ascii ''link'') (JObj 3) (ascii ''http://c'') 1 3,
                 WriteProgress 2 3,
                 LogBroken (ascii ''link'') (JObj 2) (ascii ''http://b'') 3 3],
      queries = [],
      checked = [(JObj 3, ascii ''link'', ascii ''http://c''),
                 (JObj 3, ascii ''video'', ascii ''http://a''),
                 (JObj 2, ascii ''link'', ascii ''http://b'')],
      currentLink = 3, brokenLinksCount = 2, clientClosed = False, exitCode = None\<rparr>"
    by (simp add: checkPass_def checkField_def docC_fields example_fields valueUrls_spec
        example_urls checkUrl_example ascii_eq_Nil recorded_def st'_def st_def start_def)
  from goes_on rest show ?thesis by simp
qed

subsection \<open>C5: the candidate fields\<close>

text \<open>
  C5. A field name is in the set that the sniffing loop builds from a sample if and
  only if some document of the sample has, in that field, a string that contains
  \<^verbatim>\<open>http://\<close> or \<^verbatim>\<open>https://\<close>, or an array with such a string as an element; and a
  field found in a sample is still in the set when more documents follow.
\<close>

theorem sniff_sound_complete:
  "(key \<in> set (sniff sample) \<longleftrightarrow> (\<exists>doc \<in> set sample. holdsLink (getField doc key)))
   \<and> set (sniff sample) \<subseteq> set (sniff (sample @ later))"
  by (auto simp: sniff_def set_fold_sniffDoc)

theorem sniff_sound_complete_witness:
  "ascii ''video'' \<in> set (sniff [docA, docB])
   \<and> (holdsLink (getField docA (ascii ''video'')) \<or> holdsLink (getField docB (ascii ''video'')))
   \<and> ascii ''note'' \<notin> set (sniff [docA, docB])
   \<and> \<not> holdsLink (getField docA (ascii ''note''))
   \<and> \<not> holdsLink (getField docB (ascii ''note''))"
proof -
  have inside: "ascii ''video'' \<in> set (sniff [docA, docB])"
    and outside: "ascii ''note'' \<notin> set (sniff [docA, docB])"
    by (simp_all add: sniff_example) (simp_all add: ascii_def)
  from inside outside show ?thesis
    using sniff_sound_complete [of "ascii ''video''" "[docA, docB]" "[]"]
      sniff_sound_complete [of "ascii ''note''" "[docA, docB]" "[]"]
    by simp
qed

subsection \<open>C6: a value that starts with a scheme is harvested\<close>

text \<open>
  C6. Let a string start with \<^verbatim>\<open>http://\<close> or \<^verbatim>\<open>https://\<close> and be the value of a
  candidate field of a document, or an element of the array that is this value. Then
  the URLs taken from the string are at least one, they are the string itself when the
  pattern finds nothing in it, the second pass checks each of them for this document
  and field, and the first pass counts at least one link.
\<close>

theorem scheme_value_harvested:
  assumes "doc \<in> set docs" and "field \<in> set fs"
    and "getField doc field = JStr s
         \<or> (\<exists>items. getField doc field = JArr items \<and> JStr s \<in> set items)"
    and "startsWithScheme s"
  shows "textUrls s \<noteq> []
     \<and> (extractUrlsFromText s = [] \<longrightarrow> textUrls s = [s])
     \<and> (\<forall>url \<in> set (textUrls s).
           (getField doc (ascii ''_id''), field, url)
             \<in> set (checked (checkPass net tot docs fs st)))
     \<and> 0 < countPass docs fs"
proof -
  have sub: "set (specTextUrls s) \<subseteq> set (specValueUrls (getField doc field))"
    using specTextUrls_in_value [OF assms(3)] .
  have occ: "(getField doc (ascii ''_id''), field, url) \<in> set (harvest docs fs)"
    if "url \<in> set (specTextUrls s)" for url
    using that sub assms(1,2) by (auto simp: set_harvest)
  from specTextUrls_scheme(1) [OF assms(4)] obtain url where "url \<in> set (specTextUrls s)"
    by (cases "specTextUrls s") auto
  then have "harvest docs fs \<noteq> []" using occ by fastforce
  then show ?thesis
    using occ specTextUrls_scheme [OF assms(4)]
    by (simp add: textUrls_spec countPass_harvest checkPass_trace)
qed

theorem scheme_value_harvested_witness:
  "textUrls (ascii ''http://'') = [ascii ''http://'']
   \<and> (JUndefined, ascii ''f'', ascii ''http://'')
        \<in> set (checked (checkPass exampleNet 1 [[(ascii ''f'', JStr (ascii ''http://''))]]
                   [ascii ''f''] start))
   \<and> 0 < countPass [[(ascii ''f'', JStr (ascii ''http://''))]] [ascii ''f'']"
proof -
  have "getField [(ascii ''f'', JStr (ascii ''http://''))] (ascii ''f'') = JStr (ascii ''http://'')"
    and "startsWithScheme (ascii ''http://'')"
    and "extractUrlsFromText (ascii ''http://'') = []"
    and "getField [(ascii ''f'', JStr (ascii ''http://''))] (ascii ''_id'') = JUndefined"
    by (simp_all add: getField_def startsWithScheme_def startsWith_def matchAt_def
        matchScheme_def ascii_def)
  then show ?thesis
    using scheme_value_harvested [of "[(ascii ''f'', JStr (ascii ''http://''))]"
        "[[(ascii ''f'', JStr (ascii ''http://''))]]" "ascii ''f''" "[ascii ''f'']"
        "ascii ''http://''" exampleNet 1 start]
    by simp
qed

subsection \<open>C7: no candidate field\<close>

text \<open>
  C7, as amended. When the sample is read and no field of it qualifies, the run writes
  the message that no field with links was detected and exits with code 0; the whole
  collection is never queried, no link is counted, no URL is checked, and nothing else
  is written: there is no summary.
\<close>

theorem no_candidate_fields_exit:
  assumes "sampleDocs db = Inr sample" and "sniff sample = []"
  shows "main db net =
     start\<lparr>console := [LogInspecting, LogNoFields], queries := [FindSample],
           exitCode := Some 0\<rparr>"
  using assms by (simp add: main_def)

theorem no_candidate_fields_exit_witness:
  "main \<lparr>sampleDocs = Inr [[(ascii ''count'', JNum 0)]], allDocs = Inr [docA, docB]\<rparr> exampleNet =
     start\<lparr>console := [LogInspecting, LogNoFields], queries := [FindSample],
           exitCode := Some 0\<rparr>"
proof -
  have "sniff [[(ascii ''count'', JNum 0)]] = []"
    by (simp add: sniff_def sniffDoc_def sniffKey_def keys_def getField_def)
  then show ?thesis
    using no_candidate_fields_exit [of
        "\<lparr>sampleDocs = Inr [[(ascii ''count'', JNum 0)]], allDocs = Inr [docA, docB]\<rparr>"
        "[[(ascii ''count'', JNum 0)]]" exampleNet]
    by simp
qed

text \<open>
  As stated, with a summary of zero links checked, C7 fails: on an empty sample the
  output of the run is the two lines below, and the line of line 256, which is the
  summary of a run, is not among them.
\<close>

theorem no_summary_counterexample:
  "sniff [] = []
   \<and> console (main \<lparr>sampleDocs = Inr [], allDocs = Inr [docA, docB]\<rparr> exampleNet) =
       [LogInspecting, LogNoFields]"
  by (simp add: main_def sniff_def start_def)

subsection \<open>C8: extraction of a text that is one URL\<close>

text \<open>
  C8, as amended. A text made of a scheme, \<^verbatim>\<open>http://\<close> or \<^verbatim>\<open>https://\<close>, followed by
  at least one code unit, none of them white space, a double quote or a single quote,
  is extracted as exactly one URL, the whole text.
\<close>

theorem extract_single_url:
  assumes "scheme = ascii ''http://'' \<or> scheme = ascii ''https://''"
    and "rest \<noteq> []" and "list_all urlChar rest"
  shows "extractUrlsFromText (scheme @ rest) = [scheme @ rest]"
proof -
  from assms(2) obtain c cs where cons: "scheme @ rest = c # cs"
    by (cases "scheme @ rest") auto
  have "extractUrlsFromText (c # cs) = [c # cs]"
    using matchAt_whole [OF assms] by (simp add: cons)
  with cons show ?thesis by simp
qed

theorem extract_single_url_witness:
  "extractUrlsFromText (ascii ''https://example.com/x'') = [ascii ''https://example.com/x'']"
proof -
  have split: "ascii ''https://example.com/x'' = ascii ''https://'' @ ascii ''example.com/x''"
    by (simp add: ascii_def)
  have "ascii ''example.com/x'' \<noteq> []" and "list_all urlChar (ascii ''example.com/x'')"
    by (simp_all add: ascii_def urlChar_def isWhiteSpace_def)
  then show ?thesis
    using extract_single_url [of "ascii ''https://''" "ascii ''example.com/x''"]
    by (simp only: split) simp
qed

text \<open>
  As stated, without a code unit after the scheme, C8 fails: the text \<^verbatim>\<open>http://\<close>
  starts with a scheme and has no white space and no quote after it, and the pattern,
  whose class is under \<^verbatim>\<open>+\<close>, does not match it.
\<close>

theorem extract_bare_scheme_counterexample:
  "startsWithScheme (ascii ''http://'')
   \<and> list_all urlChar (drop 7 (ascii ''http://''))
   \<and> extractUrlsFromText (ascii ''http://'') \<noteq> [ascii ''http://'']"
  by (simp add: ascii_def startsWithScheme_def startsWith_def matchAt_def matchScheme_def)

subsection \<open>C9: an empty or blank URL\<close>

text \<open>
  C9. For a URL that is empty or made of white space only, \<^verbatim>\<open>checkUrl\<close> returns
  \<^verbatim>\<open>false\<close> and leaves the state as it was: no request is sent and nothing is
  written.
\<close>

theorem checkUrl_blank:
  assumes "url = [] \<or> list_all isWhiteSpace url"
  shows "checkUrl net url st = (False, st)"
  using assms by (auto simp: checkUrl_def checkUrlTry_def trimIsEmpty_def)

theorem checkUrl_blank_witness:
  "checkUrl (\<lambda>reqs r. Inl (JsError (ascii ''unreachable''))) (ascii ''  '') start = (False, start)
   \<and> checkUrl (\<lambda>reqs r. Inl (JsError (ascii ''unreachable''))) [] start = (False, start)"
proof -
  have "list_all isWhiteSpace (ascii ''  '')"
    by (simp add: ascii_def isWhiteSpace_def)
  then show ?thesis
    using checkUrl_blank [of "ascii ''  ''"] checkUrl_blank [of "[]"] by simp
qed

subsection \<open>C10: a falsy field value is skipped\<close>

text \<open>
  C10. When the value of a candidate field is \<^verbatim>\<open>undefined\<close> (the field is absent),
  \<^verbatim>\<open>null\<close>, \<^verbatim>\<open>false\<close>, \<^verbatim>\<open>0\<close>, \<^verbatim>\<open>NaN\<close> or the empty string, it is falsy, the
  first pass leaves its total as it is and the second pass leaves its state as it is:
  nothing is checked and nothing is written.
\<close>

theorem falsy_field_skipped:
  assumes "getField doc field \<in> {JUndefined, JNull, JBool False, JNum 0, JNaN, JStr []}"
  shows "\<not> truthy (getField doc field)
     \<and> countField doc field totalLinks = totalLinks
     \<and> checkField net totalLinks doc field st = st"
  using assms by (auto simp: countField_def checkField_def)

theorem falsy_field_skipped_witness:
  "countField docA (ascii ''note'') 5 = 5
   \<and> checkField exampleNet 5 docA (ascii ''note'') start = start
   \<and> countField docB (ascii ''count'') 5 = 5
   \<and> checkField exampleNet 5 docB (ascii ''count'') start = start
   \<and> countField docB (ascii ''note'') 5 = 5
   \<and> checkField exampleNet 5 docB (ascii ''note'') start = start"
proof -
  have "getField docA (ascii ''note'') = JStr []" and "getField docB (ascii ''count'') = JNum 0"
    and "getField docB (ascii ''note'') = JUndefined"
    by (simp_all add: getField_def docA_def docB_def ascii_def)
  then show ?thesis
    using falsy_field_skipped [of docA "ascii ''note''" 5 exampleNet start]
      falsy_field_skipped [of docB "ascii ''count''" 5 exampleNet start]
      falsy_field_skipped [of docB "ascii ''note''" 5 exampleNet start]
    by simp
qed

end
